theory Spec2Isabelle
  imports Complex_Main
begin

section \<open>Python values used by the scrapers\<close>

text \<open>
  The scripts read JSON documents with \<^verbatim>\<open>dict.get\<close>. A string-valued key is modelled as
  \<open>string option\<close>: \<open>None\<close> stands for Python's \<^verbatim>\<open>None\<close>, which is what
  \<^verbatim>\<open>d.get(key)\<close> returns for a missing key (and for a JSON null).
  \<open>truthy\<close> is Python's truth test on such a value (\<^verbatim>\<open>if parent_path\<close>,
  \<^verbatim>\<open>if item_id\<close>): \<^verbatim>\<open>None\<close> and the empty string are false.
  \<open>py_str\<close> is the text an f-string inserts for the value.
\<close>

definition truthy :: "string option \<Rightarrow> bool" where
  "truthy v = (case v of None \<Rightarrow> False | Some s \<Rightarrow> s \<noteq> [])"

definition py_str :: "string option \<Rightarrow> string" where
  "py_str v = (case v of None \<Rightarrow> ''None'' | Some s \<Rightarrow> s)"

datatype py_error = TypeError | AttributeError

text \<open>
  A Python \<^verbatim>\<open>dict\<close> keeps its keys in insertion order, so it is an association list
  with distinct keys. \<open>dict_set\<close> is \<^verbatim>\<open>d[k] = v\<close>: an existing key keeps its
  position and gets the new value, a new key is appended. \<open>dict_contains\<close> is
  \<^verbatim>\<open>k in d\<close>.
\<close>

fun dict_set :: "('k \<times> 'v) list \<Rightarrow> 'k \<Rightarrow> 'v \<Rightarrow> ('k \<times> 'v) list" where
  "dict_set [] k v = [(k, v)]"
| "dict_set ((k', v') # d) k v = (if k' = k then (k', v) # d else (k', v') # dict_set d k v)"

definition dict_contains :: "('k \<times> 'v) list \<Rightarrow> 'k \<Rightarrow> bool" where
  "dict_contains d k = (k \<in> set (map fst d))"

section \<open>Category tree flattening (\<^verbatim>\<open>_flatten_categories\<close>)\<close>

text \<open>
  A node of the nested category document. \<open>node_images\<close> holds, for each entry of the
  \<^verbatim>\<open>images\<close> list, its \<^verbatim>\<open>url\<close>; \<open>node_subcategories\<close> is the
  \<^verbatim>\<open>subcategories\<close> list. A missing \<^verbatim>\<open>images\<close> or
  \<^verbatim>\<open>subcategories\<close> key is the empty list: the code reads both through
  \<^verbatim>\<open>cat.get(key, [])\<close> or a truth test, which do not tell the two apart.
\<close>

datatype node = Node
  (node_id: "string option")
  (node_name: "string option")
  (node_slug: "string option")
  (node_description: "string option")
  (node_images: "string option list")
  (node_subcategories: "node list")

record category =
  cat_id :: "string option"
  cat_name :: "string option"
  cat_slug :: "string option"
  cat_description :: string
  cat_path :: "string option"
  cat_level :: nat
  cat_parent_path :: "string option"
  cat_image_url :: "string option"
  cat_has_subcategories :: bool

text \<open>
  The dictionary \<^verbatim>\<open>cat_info\<close> built in the loop body of
  \<^verbatim>\<open>WoltComprehensiveScraper._flatten_categories\<close>
  (scripts/wolt\_scraper\_complete.py, lines 58-68). Only \<^verbatim>\<open>description\<close> is read
  with a default of \<^verbatim>\<open>''\<close>.
\<close>

definition cat_info :: "node \<Rightarrow> string option \<Rightarrow> nat \<Rightarrow> category" where
  "cat_info cat parent_path level =
     \<lparr> cat_id = node_id cat,
       cat_name = node_name cat,
       cat_slug = node_slug cat,
       cat_description = (case node_description cat of None \<Rightarrow> [] | Some d \<Rightarrow> d),
       cat_path = (if truthy parent_path
                   then Some (py_str parent_path @ ''/'' @ py_str (node_name cat))
                   else node_name cat),
       cat_level = level,
       cat_parent_path = parent_path,
       cat_image_url = (case node_images cat of [] \<Rightarrow> None | img # _ \<Rightarrow> img),
       cat_has_subcategories = (0 < length (node_subcategories cat)) \<rparr>"

text \<open>
  \<^verbatim>\<open>_flatten_categories(categories, parent_path, level)\<close>: the record of a node, then
  (when \<^verbatim>\<open>cat.get('subcategories')\<close> is non-empty) the flattening of its children
  under the node's own path and \<open>level + 1\<close>, then the remaining siblings. The initial
  call passes \<^verbatim>\<open>parent_path = ""\<close> and \<^verbatim>\<open>level = 0\<close>.
\<close>

fun flatten_categories :: "node list \<Rightarrow> string option \<Rightarrow> nat \<Rightarrow> category list" where
  "flatten_categories [] parent_path level = []"
| "flatten_categories (Node i n s d im subs # cats) parent_path level =
     (let info = cat_info (Node i n s d im subs) parent_path level
      in [info]
         @ (if subs \<noteq> [] then flatten_categories subs (cat_path info) (level + 1) else [])
         @ flatten_categories cats parent_path level)"

text \<open>
  \<^verbatim>\<open>WoltBravoScraper.extract_all_categories\<close> (wolt\_bravo\_scraper.py, lines 51-79)
  walks the tree the same way but has no level parameter: it computes
  \<^verbatim>\<open>'level': parent_path.count('/')\<close>. Only path and level of each record are kept
  here. \<^verbatim>\<open>None.count\<close> raises, so a missing parent path is an error.
\<close>

fun extract_all_categories ::
  "node list \<Rightarrow> string option \<Rightarrow> py_error + (string option \<times> nat) list" where
  "extract_all_categories [] parent_path = Inr []"
| "extract_all_categories (Node i n s d im subs # cats) parent_path =
     (case parent_path of
        None \<Rightarrow> Inl AttributeError
      | Some pp \<Rightarrow>
          (let path = (if pp \<noteq> [] then Some (pp @ ''/'' @ py_str n) else n);
               level = count_list pp CHR ''/''
           in case (if subs \<noteq> [] then extract_all_categories subs path else Inr []) of
                Inl e \<Rightarrow> Inl e
              | Inr subcats \<Rightarrow>
                  (case extract_all_categories cats parent_path of
                     Inl e \<Rightarrow> Inl e
                   | Inr others \<Rightarrow> Inr ([(path, level)] @ subcats @ others))))"

subsection \<open>Reference notions for the flattening\<close>

text \<open>
  The pre-order traversal of a node in the usual sense: the node, then the traversals of
  its children from left to right.
\<close>

fun preorder :: "node \<Rightarrow> node list" where
  "preorder (Node i n s d im subs) = Node i n s d im subs # concat (map preorder subs)"







section \<open>Items, the product store and the category harvest\<close>

text \<open>
  A raw item of a response. \<open>item_category_slug\<close> and \<open>item_category_name\<close> are the keys
  \<^verbatim>\<open>_category_slug\<close> and \<^verbatim>\<open>_category_name\<close>: \<open>None\<close> while the key is
  absent, \<open>Some v\<close> once \<^verbatim>\<open>get_category_items\<close> has written the querying category's
  slug and name \<open>v\<close> (which may themselves be \<^verbatim>\<open>None\<close>). Prices are integer minor
  units; \<open>None\<close> is a missing key.
\<close>

record item =
  item_id :: "string option"
  item_name :: "string option"
  item_price :: "int option"
  item_original_price :: "int option"
  item_category_slug :: "string option option"
  item_category_name :: "string option option"

type_synonym products = "(string \<times> item) list"

text \<open>
  The deduplicating loop of \<^verbatim>\<open>scrape_all_products\<close> (lines 144-150) and of
  \<^verbatim>\<open>supplement_with_search\<close> (lines 213-218): an item whose id is \<^verbatim>\<open>None\<close> or
  empty is skipped, an item whose id is already a key is skipped, any other item is
  stored under its id and counted.
\<close>

fun merge_items :: "products \<Rightarrow> nat \<Rightarrow> item list \<Rightarrow> products \<times> nat" where
  "merge_items ps cnt [] = (ps, cnt)"
| "merge_items ps cnt (it # its) =
     (case item_id it of
        None \<Rightarrow> merge_items ps cnt its
      | Some k \<Rightarrow>
          (if k \<noteq> [] \<and> \<not> dict_contains ps k
           then merge_items (dict_set ps k it) (cnt + 1) its
           else merge_items ps cnt its))"


text \<open>
  What the transport returns for one request: a 2xx response whose JSON body carries the
  given \<^verbatim>\<open>items\<close> list (empty when the key is missing), a response on which
  \<^verbatim>\<open>raise_for_status\<close> raises \<^verbatim>\<open>HTTPError\<close> with the given status code,
  or any other failure (timeout, connection error, a body that does not parse).
\<close>

datatype response = Ok "item list" | HttpError nat | RequestFailed

definition transport_failure :: "response \<Rightarrow> bool" where
  "transport_failure resp =
     (case resp of Ok items \<Rightarrow> False | HttpError status \<Rightarrow> True | RequestFailed \<Rightarrow> True)"

definition annotate :: "string option \<Rightarrow> string option \<Rightarrow> item \<Rightarrow> item" where
  "annotate category_slug category_name it =
     it\<lparr>item_category_slug := Some category_slug, item_category_name := Some category_name\<rparr>"

text \<open>
  \<^verbatim>\<open>get_category_items\<close> (lines 82-110). Both branches of the
  \<^verbatim>\<open>HTTPError\<close> handler return \<^verbatim>\<open>[]\<close>, as does the generic handler.
\<close>

definition get_category_items :: "response \<Rightarrow> string option \<Rightarrow> string option \<Rightarrow> item list" where
  "get_category_items resp category_slug category_name =
     (case resp of
        Ok items \<Rightarrow> map (annotate category_slug category_name) items
      | HttpError status \<Rightarrow> (if status = 404 then [] else [])
      | RequestFailed \<Rightarrow> [])"

record cat_stat =
  stat_name :: string
  stat_path :: "string option"
  item_count :: nat
  new_items :: nat

text \<open>
  The scraper's state during the harvest: the dictionaries \<^verbatim>\<open>self.all_products\<close> and
  \<^verbatim>\<open>self.category_stats\<close> (keyed by slug) and the three counters of
  \<^verbatim>\<open>scrape_all_products\<close>.
\<close>

record harvest =
  all_products :: products
  category_stats :: "(string option \<times> cat_stat) list"
  total_requests :: nat
  successful_requests :: nat
  categories_with_items :: nat

definition fresh :: harvest where
  "fresh = \<lparr> all_products = [], category_stats = [], total_requests = 0,
             successful_requests = 0, categories_with_items = 0 \<rparr>"

text \<open>
  One pass through the body of the \<^verbatim>\<open>for\<close> loop of
  \<^verbatim>\<open>scrape_all_products\<close> (lines 129-165), for a category and the response the
  transport gives when that category is fetched. The progress line evaluates
  \<^verbatim>\<open>name[:60]\<close> before the fetch; for a category whose name is \<^verbatim>\<open>None\<close>
  this raises \<^verbatim>\<open>TypeError\<close>, which nothing catches. Statistics are written only
  in the \<^verbatim>\<open>if items:\<close> branch.
\<close>

definition scrape_category :: "harvest \<Rightarrow> category \<times> response \<Rightarrow> py_error + harvest" where
  "scrape_category h cr =
     (case cr of (c, resp) \<Rightarrow>
        (case cat_name c of
           None \<Rightarrow> Inl TypeError
         | Some name \<Rightarrow>
             (let h1 = h\<lparr>total_requests := total_requests h + 1\<rparr>;
                  items = get_category_items resp (cat_slug c) (cat_name c)
              in if items \<noteq> []
                 then (case merge_items (all_products h1) 0 items of
                         (ps, n) \<Rightarrow>
                           Inr (h1\<lparr>successful_requests := successful_requests h1 + 1,
                                   categories_with_items := categories_with_items h1 + 1,
                                   all_products := ps,
                                   category_stats :=
                                     dict_set (category_stats h1) (cat_slug c)
                                       \<lparr>stat_name = name, stat_path = cat_path c,
                                        item_count = length items, new_items = n\<rparr>\<rparr>))
                 else Inr h1)))"

text \<open>
  The loop itself, over the flattened categories in order; an uncaught exception ends it.
\<close>

fun scrape_loop :: "harvest \<Rightarrow> (category \<times> response) list \<Rightarrow> py_error + harvest" where
  "scrape_loop h [] = Inr h"
| "scrape_loop h (cr # rest) =
     (case scrape_category h cr of
        Inl e \<Rightarrow> Inl e
      | Inr h' \<Rightarrow> scrape_loop h' rest)"

text \<open>
  \<^verbatim>\<open>scrape_all_products\<close>: with no categories loaded it returns at once and changes
  nothing; otherwise the counters start at zero and the loop runs.
\<close>

definition scrape_all_products :: "harvest \<Rightarrow> (category \<times> response) list \<Rightarrow> py_error + harvest" where
  "scrape_all_products h crs =
     (if crs = [] then Inr h
      else scrape_loop
             (h\<lparr>total_requests := 0, successful_requests := 0, categories_with_items := 0\<rparr>)
             crs)"

text \<open>
  Two views of a run's result used to compare runs: the state with one more request
  counted, and the two dictionaries alone.
\<close>

definition one_more_request :: "harvest \<Rightarrow> harvest" where
  "one_more_request h = h\<lparr>total_requests := total_requests h + 1\<rparr>"

definition store_of :: "py_error + harvest \<Rightarrow> py_error + products \<times> (string option \<times> cat_stat) list" where
  "store_of res = map_sum id (\<lambda>h. (all_products h, category_stats h)) res"

text \<open>Sample data: an item that carries only an id, and a leaf category.\<close>

definition raw_item :: "string \<Rightarrow> item" where
  "raw_item k = \<lparr> item_id = Some k, item_name = None, item_price = None,
                  item_original_price = None, item_category_slug = None,
                  item_category_name = None \<rparr>"

definition leaf_category :: "string \<Rightarrow> category" where
  "leaf_category nm = cat_info (Node (Some nm) (Some nm) (Some nm) None [] []) (Some []) 0"

definition example_run :: "(category \<times> response) list" where
  "example_run =
     [(leaf_category ''A'',
       Ok [raw_item ''a1'', raw_item ''a2'', raw_item ''a3'', raw_item ''a4'', raw_item ''a5'']),
      (leaf_category ''B'', RequestFailed),
      (leaf_category ''C'', Ok [raw_item ''c1'', raw_item ''c2'', raw_item ''c3''])]"

subsection \<open>Reference notions for the statistics\<close>

text \<open>
  \<open>yielded_slugs\<close>: the slugs of the categories of a run whose fetch returned at least
  one item. \<open>stats_bounded\<close>: every recorded statistic has
  \<^verbatim>\<open>new_items <= item_count\<close>.
\<close>

definition yielded_slugs :: "(category \<times> response) list \<Rightarrow> string option list" where
  "yielded_slugs crs =
     map (\<lambda>cr. cat_slug (fst cr))
       (filter (\<lambda>cr. get_category_items (snd cr) (cat_slug (fst cr)) (cat_name (fst cr)) \<noteq> [])
          crs)"

definition stats_bounded :: "(string option \<times> cat_stat) list \<Rightarrow> bool" where
  "stats_bounded st = list_all (\<lambda>ks. new_items (snd ks) \<le> item_count (snd ks)) st"

section \<open>Completeness check (\<^verbatim>\<open>verify_completeness\<close>)\<close>

text \<open>
  \<^verbatim>\<open>verify_completeness\<close> (lines 336-365) only prints. \<open>large_categories\<close> is the
  dictionary comprehension of lines 356-357, with the cap 500 written in the code. The
  result is the branch taken: the warning, with the number of all large categories and
  the name and item count of the first five of them (the loop over
  \<^verbatim>\<open>list(large_categories.items())[:5]\<close>), or the message that coverage appears
  complete. The counts printed before the check do not influence it and are left out.
\<close>

definition large_categories ::
  "(string option \<times> cat_stat) list \<Rightarrow> (string option \<times> cat_stat) list" where
  "large_categories stats = filter (\<lambda>ks. 500 \<le> item_count (snd ks)) stats"

datatype completeness = Warning nat "(string \<times> nat) list" | Coverage_complete

definition verify_completeness :: "harvest \<Rightarrow> completeness" where
  "verify_completeness h =
     (let large = large_categories (category_stats h)
      in if large \<noteq> []
         then Warning (length large)
                (map (\<lambda>ks. (stat_name (snd ks), item_count (snd ks))) (take 5 large))
         else Coverage_complete)"

section \<open>Search sweep (\<^verbatim>\<open>supplement_with_search\<close>)\<close>

text \<open>
  \<^verbatim>\<open>search_items\<close> (lines 185-199): the items of the response, or the empty list
  after any exception.
\<close>

definition search_items :: "response \<Rightarrow> item list" where
  "search_items resp =
     (case resp of Ok items \<Rightarrow> items | HttpError status \<Rightarrow> [] | RequestFailed \<Rightarrow> [])"

definition search_queries :: "string list" where
  "search_queries = ['' '', ''*'', ''a'', ''b'', ''c'', ''d'', ''e'', ''s'', ''m'', ''k'']"

text \<open>
  The loop of \<^verbatim>\<open>supplement_with_search\<close> (lines 209-225) over the queries, each
  paired with the response the transport gives if that query is issued. Besides the store
  it returns the queries issued, in order. The loop leaves at the first query that adds
  nothing.
\<close>

fun sweep_loop :: "products \<Rightarrow> (string \<times> response) list \<Rightarrow> products \<times> string list" where
  "sweep_loop ps [] = (ps, [])"
| "sweep_loop ps ((query, resp) # rest) =
     (case merge_items ps 0 (search_items resp) of
        (ps', n) \<Rightarrow>
          if n = 0 then (ps', [query])
          else (case sweep_loop ps' rest of (ps'', issued) \<Rightarrow> (ps'', query # issued)))"

definition supplement_with_search ::
  "harvest \<Rightarrow> (string \<Rightarrow> response) \<Rightarrow> harvest \<times> string list" where
  "supplement_with_search h transport =
     (case sweep_loop (all_products h) (map (\<lambda>q. (q, transport q)) search_queries) of
        (ps, issued) \<Rightarrow> (h\<lparr>all_products := ps\<rparr>, issued))"

text \<open>
  Reference notion: the number of new items each query of the list yields when the
  queries are merged one after another with no early exit.
\<close>

fun query_yields :: "products \<Rightarrow> (string \<times> response) list \<Rightarrow> nat list" where
  "query_yields ps [] = []"
| "query_yields ps ((query, resp) # rest) =
     (case merge_items ps 0 (search_items resp) of (ps', n) \<Rightarrow> n # query_yields ps' rest)"

section \<open>Batch loop of the alternate scraper (wolt\_complete\_scraper.py)\<close>

text \<open>
  The duplicate filter of \<^verbatim>\<open>WoltCompleteScraper.scrape_all_products\<close>
  (lines 148-153): \<^verbatim>\<open>product_ids\<close> is a Python set, the new items of the batch
  are collected in order.
\<close>

fun filter_duplicates :: "item list \<Rightarrow> string set \<Rightarrow> item list \<Rightarrow> item list \<times> string set" where
  "filter_duplicates [] product_ids batch = (batch, product_ids)"
| "filter_duplicates (it # its) product_ids batch =
     (case item_id it of
        None \<Rightarrow> filter_duplicates its product_ids batch
      | Some k \<Rightarrow>
          (if k \<noteq> [] \<and> k \<notin> product_ids
           then filter_duplicates its (insert k product_ids) (batch @ [it])
           else filter_duplicates its product_ids batch))"

text \<open>
  Lines 147-155: the loop state is the list \<^verbatim>\<open>all_products\<close> and the set
  \<^verbatim>\<open>product_ids\<close>; the new items of the batch are appended to the list.
\<close>

definition add_batch :: "item list \<Rightarrow> item list \<times> string set \<Rightarrow> item list \<times> string set" where
  "add_batch items st =
     (case filter_duplicates items (snd st) [] of
        (batch, product_ids) \<Rightarrow> (fst st @ batch, product_ids))"

text \<open>
  The \<^verbatim>\<open>while True\<close> loop of lines 137-163. Every pass sends the same request
  (empty query, limit 500); \<open>transport n\<close> is the response to the request of batch
  \<open>n\<close>, and \<^verbatim>\<open>search_items\<close> of this script, like the one above, returns the
  items or the empty list after an exception. The loop ends on an empty result or on a
  result shorter than 500; otherwise it goes round again. A run that never ends has the
  value \<open>None\<close>.
\<close>

partial_function (option) search_batches ::
  "(nat \<Rightarrow> response) \<Rightarrow> nat \<Rightarrow> item list \<times> string set \<Rightarrow> (item list \<times> string set) option" where
  "search_batches transport batch_num st =
     (let items = search_items (transport (batch_num + 1))
      in if items = [] then Some st
         else if length items < 500 then Some (add_batch items st)
         else search_batches transport (batch_num + 1) (add_batch items st))"



section \<open>Normalisation and pricing statistics (scripts/wolt\_marketing\_analysis.py)\<close>

text \<open>
  The fields of a normalised product that depend on the price and on the provenance of
  the item. Python computes the prices in floating point; here they are rational
  numbers, so rounding is not modelled. The tests of the code (\<^verbatim>\<open>if price_cents\<close>,
  \<^verbatim>\<open>original_price > price\<close>) have the same outcome on integer minor units either way.
\<close>

record product =
  norm_id :: "string option"
  norm_price :: rat
  norm_original_price :: "rat option"
  norm_discount_percent :: "rat option"
  norm_category :: "string option"
  norm_category_slug :: "string option"

text \<open>
  The loop body of \<^verbatim>\<open>BravoMarketingAnalyzer.normalize_products\<close> (lines 39-80);
  \<^verbatim>\<open>load_and_normalize\<close> in scripts/generate\_charts.py computes price, original
  price and discount the same way. \<^verbatim>\<open>p.get('price', 0)\<close> turns a missing price
  into 0, and the truth tests treat 0 like a missing value.
\<close>

definition normalize :: "item \<Rightarrow> product" where
  "normalize p =
     (let price_cents = (case item_price p of None \<Rightarrow> 0 | Some c \<Rightarrow> c);
          price = (if price_cents \<noteq> 0 then of_int price_cents / 100 else 0);
          original_price =
            (case item_original_price p of
               None \<Rightarrow> None
             | Some c \<Rightarrow> if c \<noteq> 0 then Some (of_int c / 100) else None);
          discount_pct =
            (case original_price of
               None \<Rightarrow> None
             | Some orig \<Rightarrow>
                 if orig \<noteq> 0 \<and> price \<noteq> 0 \<and> orig > price
                 then Some (((orig - price) / orig) * 100)
                 else None)
      in \<lparr> norm_id = item_id p,
           norm_price = price,
           norm_original_price = original_price,
           norm_discount_percent = discount_pct,
           norm_category = (case item_category_name p of None \<Rightarrow> Some ''Unknown'' | Some v \<Rightarrow> v),
           norm_category_slug = (case item_category_slug p of None \<Rightarrow> Some [] | Some v \<Rightarrow> v) \<rparr>)"

definition normalize_products :: "item list \<Rightarrow> product list" where
  "normalize_products ps = map normalize ps"

text \<open>
  The aggregates of \<^verbatim>\<open>pricing_analysis\<close> (lines 92-101): computed over the prices
  that are greater than 0; with no such price the function returns before computing
  anything.
\<close>

record price_summary =
  avg_price :: rat
  min_price :: rat
  max_price :: rat
  median_price :: rat

definition pricing_analysis :: "product list \<Rightarrow> price_summary option" where
  "pricing_analysis products =
     (let prices = map norm_price (filter (\<lambda>p. norm_price p > 0) products)
      in if prices = [] then None
         else Some \<lparr> avg_price = sum_list prices / of_nat (length prices),
                     min_price = Min (set prices),
                     max_price = Max (set prices),
                     median_price = sort prices ! (length prices div 2) \<rparr>)"


section \<open>Properties of the flattening\<close>

lemma flatten_fields:
  "map (\<lambda>c. (cat_id c, cat_name c, cat_slug c, cat_description c))
       (flatten_categories cs pp lvl)
   = map (\<lambda>n. (node_id n, node_name n, node_slug n,
                case node_description n of None \<Rightarrow> [] | Some d \<Rightarrow> d))
       (concat (map preorder cs))"
  by (induction cs pp lvl rule: flatten_categories.induct) (simp_all add: Let_def cat_info_def)








text \<open>
  Claim C6, as the code has it. The records come out in pre-order: the sequence of
  (id, name, slug, description) of the emitted records is that of the nodes of the
  pre-order traversal of the document, one record per node, so that no node is dropped or
  emitted twice and siblings keep their order. A node without an id or a name is emitted
  with the value \<^verbatim>\<open>None\<close> in that field; only a missing description becomes the
  empty string. The result depends on the arguments alone: the function reads and writes
  no other state.
\<close>

theorem flatten_categories_preorder:
  "map (\<lambda>c. (cat_id c, cat_name c, cat_slug c, cat_description c))
       (flatten_categories cats parent_path level)
   = map (\<lambda>n. (node_id n, node_name n, node_slug n,
                case node_description n of None \<Rightarrow> [] | Some d \<Rightarrow> d))
       (concat (map preorder cats))
   \<and> length (flatten_categories cats parent_path level) = length (concat (map preorder cats))"
proof -
  have fields: "map (\<lambda>c. (cat_id c, cat_name c, cat_slug c, cat_description c))
       (flatten_categories cats parent_path level)
   = map (\<lambda>n. (node_id n, node_name n, node_slug n,
                case node_description n of None \<Rightarrow> [] | Some d \<Rightarrow> d))
       (concat (map preorder cats))"
    by (rule flatten_fields)
  from arg_cong[OF this, of length] have "length (flatten_categories cats parent_path level)
      = length (concat (map preorder cats))"
    by (simp only: length_map)
  with fields show ?thesis by simp
qed

text \<open>
  Claim C6 as stated fails: a root node that has a slug but neither id nor name is emitted
  with id and name \<^verbatim>\<open>None\<close> and path \<^verbatim>\<open>None\<close>, not with empty strings.
\<close>

theorem flatten_missing_name_counterexample:
  "flatten_categories [Node None None (Some ''fruit'') None [] []] (Some []) 0
   = [\<lparr> cat_id = None, cat_name = None, cat_slug = Some ''fruit'', cat_description = [],
         cat_path = None, cat_level = 0, cat_parent_path = Some [], cat_image_url = None,
         cat_has_subcategories = False \<rparr>]
   \<and> (None :: string option) \<noteq> Some []"
  by (simp add: cat_info_def truthy_def)




text \<open>
  The variant in wolt\_bravo\_scraper.py counts the slashes of the parent path, so a child
  of a root gets level 0 like the root itself, although its path has one separator.
\<close>

lemma extract_all_categories_child_level:
  "extract_all_categories
     [Node (Some ''1'') (Some ''Dairy'') (Some ''dairy'') None []
        [Node (Some ''2'') (Some ''Milk'') (Some ''milk'') None [] []]] (Some [])
   = Inr [(Some ''Dairy'', 0), (Some ''Dairy/Milk'', 0)]"
  by (simp add: py_str_def)


section \<open>Properties of the product store\<close>

lemma dict_set_key_list:
  "map fst (dict_set d k v) = (if k \<in> set (map fst d) then map fst d else map fst d @ [k])"
  by (induction d) (simp_all split: prod.splits, force+)

lemma dict_set_distinct: "distinct (map fst d) \<Longrightarrow> distinct (map fst (dict_set d k v))"
  unfolding dict_set_key_list by auto


lemma dict_set_fresh: "\<not> dict_contains d k \<Longrightarrow> dict_set d k v = d @ [(k, v)]"
  by (induction d) (auto simp: dict_contains_def)






lemma merge_items_count_le: "snd (merge_items ps n its) \<le> n + length its"
proof (induction its arbitrary: ps n)
  case Nil
  show ?case by simp
next
  case (Cons it its)
  show ?case
    using Cons.IH[of ps n] Cons.IH[of "dict_set ps (the (item_id it)) it" "n + 1"]
    by (auto split: option.splits)
qed







section \<open>Properties of the category harvest\<close>

lemma scrape_category_one_more:
  "scrape_category (one_more_request h) cr = map_sum id one_more_request (scrape_category h cr)"
  by (cases cr)
     (simp add: scrape_category_def one_more_request_def Let_def split: option.splits prod.splits)

lemma failure_no_items:
  "transport_failure resp \<Longrightarrow> get_category_items resp sl nm = []"
  by (cases resp) (simp_all add: transport_failure_def get_category_items_def)

lemma scrape_category_failure:
  "transport_failure resp \<Longrightarrow> cat_name c = Some name \<Longrightarrow>
   scrape_category h (c, resp) = Inr (one_more_request h)"
  by (simp add: scrape_category_def failure_no_items one_more_request_def)

lemma scrape_loop_one_more:
  "scrape_loop (one_more_request h) crs = map_sum id one_more_request (scrape_loop h crs)"
proof (induction crs arbitrary: h)
  case Nil
  show ?case by simp
next
  case (Cons cr crs)
  show ?case
    by (cases "scrape_category h cr") (simp_all add: scrape_category_one_more Cons.IH)
qed

lemma store_of_one_more: "store_of (map_sum id one_more_request res) = store_of res"
  by (cases res) (simp_all add: store_of_def one_more_request_def)

lemma scrape_loop_skips_failures:
  "\<forall>cr \<in> set crs. transport_failure (snd cr) \<longrightarrow> cat_name (fst cr) \<noteq> None \<Longrightarrow>
   store_of (scrape_loop h crs)
   = store_of (scrape_loop h (filter (\<lambda>cr. \<not> transport_failure (snd cr)) crs))"
proof (induction crs arbitrary: h)
  case Nil
  show ?case by simp
next
  case (Cons cr crs)
  obtain c resp where cr: "cr = (c, resp)" by (cases cr)
  from Cons.prems have rest:
    "\<forall>cr \<in> set crs. transport_failure (snd cr) \<longrightarrow> cat_name (fst cr) \<noteq> None" by simp
  show ?case
  proof (cases "transport_failure resp")
    case True
    with Cons.prems obtain name where "cat_name c = Some name" by (auto simp: cr)
    with True have "scrape_loop h (cr # crs) = scrape_loop (one_more_request h) crs"
      by (simp add: cr scrape_category_failure)
    then have "store_of (scrape_loop h (cr # crs)) = store_of (scrape_loop h crs)"
      by (simp add: scrape_loop_one_more store_of_one_more)
    with Cons.IH[OF rest, of h] True show ?thesis by (simp add: cr)
  next
    case False
    show ?thesis
    proof (cases "scrape_category h cr")
      case (Inl e)
      with False show ?thesis by (simp add: cr)
    next
      case (Inr h')
      with False Cons.IH[OF rest, of h'] show ?thesis by (simp add: cr)
    qed
  qed
qed

lemma scrape_category_named:
  "cat_name (fst cr) \<noteq> None \<Longrightarrow>
   \<exists>h'. scrape_category h cr = Inr h' \<and> total_requests h' = total_requests h + 1"
  by (cases cr)
     (auto simp: scrape_category_def Let_def split: option.splits prod.splits)

lemma scrape_loop_visits_all:
  "\<forall>cr \<in> set crs. cat_name (fst cr) \<noteq> None \<Longrightarrow>
   \<exists>h'. scrape_loop h crs = Inr h' \<and> total_requests h' = total_requests h + length crs"
proof (induction crs arbitrary: h)
  case Nil
  show ?case by simp
next
  case (Cons cr crs)
  from Cons.prems have "cat_name (fst cr) \<noteq> None" by simp
  from scrape_category_named[OF this, of h] obtain h1 where
    h1: "scrape_category h cr = Inr h1" "total_requests h1 = total_requests h + 1" by blast
  from Cons.prems have "\<forall>cr \<in> set crs. cat_name (fst cr) \<noteq> None" by simp
  from Cons.IH[OF this, of h1] h1 show ?case by auto
qed

lemma dict_set_entries: "set (dict_set d k v) \<subseteq> insert (k, v) (set d)"
  by (induction d) (auto split: if_splits)

lemma dict_set_keys: "set (map fst (dict_set d k v)) = insert k (set (map fst d))"
  unfolding dict_set_key_list by auto

lemma yielded_slugs_Cons:
  "yielded_slugs ((c, resp) # crs)
   = (if get_category_items resp (cat_slug c) (cat_name c) \<noteq> [] then [cat_slug c] else [])
     @ yielded_slugs crs"
  by (simp add: yielded_slugs_def)

lemma scrape_category_stats:
  assumes "scrape_category h (c, resp) = Inr h'"
  shows "set (map fst (category_stats h'))
         = set (map fst (category_stats h))
           \<union> (if get_category_items resp (cat_slug c) (cat_name c) \<noteq> [] then {cat_slug c} else {})"
    and "distinct (map fst (category_stats h)) \<Longrightarrow> distinct (map fst (category_stats h'))"
    and "stats_bounded (category_stats h) \<Longrightarrow> stats_bounded (category_stats h')"
proof -
  let ?items = "get_category_items resp (cat_slug c) (cat_name c)"
  obtain ps n where m: "merge_items (all_products h) 0 ?items = (ps, n)"
    by (cases "merge_items (all_products h) 0 ?items")
  from merge_items_count_le[of "all_products h" 0 ?items] m have n: "n \<le> length ?items" by simp
  from assms obtain name where nm: "cat_name c = Some name"
    by (auto simp: scrape_category_def split: option.splits)
  let ?stat = "\<lparr>stat_name = name, stat_path = cat_path c,
                 item_count = length ?items, new_items = n\<rparr>"
  have st: "category_stats h' = (if ?items \<noteq> [] then dict_set (category_stats h) (cat_slug c) ?stat
                                 else category_stats h)"
    using assms nm m by (auto simp: scrape_category_def Let_def split: if_splits)
  show "set (map fst (category_stats h'))
         = set (map fst (category_stats h))
           \<union> (if ?items \<noteq> [] then {cat_slug c} else {})"
    unfolding st by (simp add: dict_set_keys del: set_map)
  show "distinct (map fst (category_stats h)) \<Longrightarrow> distinct (map fst (category_stats h'))"
    unfolding st by (simp add: dict_set_distinct)
  show "stats_bounded (category_stats h) \<Longrightarrow> stats_bounded (category_stats h')"
    unfolding st using n dict_set_entries[of "category_stats h" "cat_slug c" ?stat]
    by (auto simp: stats_bounded_def list_all_iff)
qed

lemma scrape_loop_stats:
  "scrape_loop h crs = Inr h' \<Longrightarrow>
     set (map fst (category_stats h')) = set (map fst (category_stats h)) \<union> set (yielded_slugs crs)
   \<and> (distinct (map fst (category_stats h)) \<longrightarrow> distinct (map fst (category_stats h')))
   \<and> (stats_bounded (category_stats h) \<longrightarrow> stats_bounded (category_stats h'))"
proof (induction crs arbitrary: h)
  case Nil
  then show ?case by (simp add: yielded_slugs_def)
next
  case (Cons cr crs)
  obtain c resp where cr: "cr = (c, resp)" by (cases cr)
  from Cons.prems obtain h1 where h1: "scrape_category h (c, resp) = Inr h1"
    and rest: "scrape_loop h1 crs = Inr h'"
    by (auto simp: cr split: sum.splits)
  from Cons.IH[OF rest] scrape_category_stats[OF h1]
  show ?case unfolding cr yielded_slugs_Cons by (auto simp del: set_map)
qed

lemma item_id_annotate: "item_id (annotate s n it) = item_id it"
  by (simp add: annotate_def)

lemma item_id_raw: "item_id (raw_item k) = Some k"
  by (simp add: raw_item_def)


lemma example_run_eval:
  "scrape_all_products fresh example_run
   = Inr \<lparr> all_products =
             [(''a1'', annotate (Some ''A'') (Some ''A'') (raw_item ''a1'')),
              (''a2'', annotate (Some ''A'') (Some ''A'') (raw_item ''a2'')),
              (''a3'', annotate (Some ''A'') (Some ''A'') (raw_item ''a3'')),
              (''a4'', annotate (Some ''A'') (Some ''A'') (raw_item ''a4'')),
              (''a5'', annotate (Some ''A'') (Some ''A'') (raw_item ''a5'')),
              (''c1'', annotate (Some ''C'') (Some ''C'') (raw_item ''c1'')),
              (''c2'', annotate (Some ''C'') (Some ''C'') (raw_item ''c2'')),
              (''c3'', annotate (Some ''C'') (Some ''C'') (raw_item ''c3''))],
           category_stats =
             [(Some ''A'', \<lparr>stat_name = ''A'', stat_path = Some ''A'', item_count = 5, new_items = 5\<rparr>),
              (Some ''C'', \<lparr>stat_name = ''C'', stat_path = Some ''C'', item_count = 3, new_items = 3\<rparr>)],
           total_requests = 3, successful_requests = 2, categories_with_items = 2 \<rparr>"
  by (simp add: example_run_def scrape_all_products_def scrape_category_def leaf_category_def
        cat_info_def fresh_def get_category_items_def dict_contains_def truthy_def
        item_id_annotate item_id_raw)

lemma example_run_named: "\<forall>cr \<in> set example_run. cat_name (fst cr) \<noteq> None"
  by (simp add: example_run_def leaf_category_def cat_info_def)

lemma example_yield: "yielded_slugs example_run = [Some ''A'', Some ''C'']"
    by (simp add: yielded_slugs_def example_run_def leaf_category_def cat_info_def
          get_category_items_def)




section \<open>Error isolation and statistics of the harvest\<close>

lemma scrape_category_agree:
  assumes "all_products g = all_products h" and "category_stats g = category_stats h"
  shows "store_of (scrape_category g cr) = store_of (scrape_category h cr)"
  using assms
  by (cases cr)
     (simp add: scrape_category_def store_of_def Let_def split: option.splits prod.splits)

lemma store_of_eq_Inr:
  "store_of (Inr g) = store_of (Inr h)
   \<longleftrightarrow> all_products g = all_products h \<and> category_stats g = category_stats h"
  by (simp add: store_of_def)

lemma scrape_loop_agree:
  "all_products g = all_products h \<Longrightarrow> category_stats g = category_stats h \<Longrightarrow>
   store_of (scrape_loop g crs) = store_of (scrape_loop h crs)"
proof (induction crs arbitrary: g h)
  case Nil
  then show ?case by (simp add: store_of_def)
next
  case (Cons cr crs)
  from scrape_category_agree[OF Cons.prems, of cr]
  have eq: "store_of (scrape_category g cr) = store_of (scrape_category h cr)" .
  show ?case
  proof (cases "scrape_category g cr")
    case (Inl e)
    with eq obtain e' where "scrape_category h cr = Inl e'" "e' = e"
      by (cases "scrape_category h cr") (simp_all add: store_of_def)
    with Inl show ?thesis by (simp add: store_of_def)
  next
    case (Inr g')
    with eq obtain h' where h': "scrape_category h cr = Inr h'"
      by (cases "scrape_category h cr") (simp_all add: store_of_def)
    with eq Inr have "all_products g' = all_products h'" "category_stats g' = category_stats h'"
      by (simp_all add: store_of_def)
    from Cons.IH[OF this] Inr h' show ?thesis by simp
  qed
qed

lemma store_of_scrape_all:
  "store_of (scrape_all_products h crs) = store_of (scrape_loop h crs)"
proof (cases "crs = []")
  case True
  then show ?thesis by (simp add: scrape_all_products_def)
next
  case False
  have "store_of (scrape_loop
          (h\<lparr>total_requests := 0, successful_requests := 0, categories_with_items := 0\<rparr>) crs)
        = store_of (scrape_loop h crs)"
    by (rule scrape_loop_agree) simp_all
  with False show ?thesis
    by (simp add: scrape_all_products_def)
qed


text \<open>
  Claim C4. A transport failure on a fetched category does not abort the harvest and
  leaves no trace in the store: the run over all categories ends with the same products
  and statistics (or the same uncaught error) as the run over the categories whose
  fetch did not fail, and when every category has a name the run completes with one
  request per category, so every category after a failed one is visited. In the example
  run, 5 items, a failure and 3 items give 8 products.
\<close>

theorem scrape_isolates_transport_failures:
  "\<forall>cr \<in> set crs. transport_failure (snd cr) \<longrightarrow> cat_name (fst cr) \<noteq> None \<Longrightarrow>
     store_of (scrape_all_products h crs)
     = store_of (scrape_all_products h (filter (\<lambda>cr. \<not> transport_failure (snd cr)) crs))
   \<and> (crs \<noteq> [] \<and> (\<forall>cr \<in> set crs. cat_name (fst cr) \<noteq> None) \<longrightarrow>
        (\<exists>h'. scrape_all_products h crs = Inr h' \<and> total_requests h' = length crs))"
proof -
  assume named: "\<forall>cr \<in> set crs. transport_failure (snd cr) \<longrightarrow> cat_name (fst cr) \<noteq> None"
  have "store_of (scrape_all_products h crs)
        = store_of (scrape_all_products h (filter (\<lambda>cr. \<not> transport_failure (snd cr)) crs))"
    unfolding store_of_scrape_all by (rule scrape_loop_skips_failures[OF named])
  moreover have "crs \<noteq> [] \<and> (\<forall>cr \<in> set crs. cat_name (fst cr) \<noteq> None) \<longrightarrow>
        (\<exists>h'. scrape_all_products h crs = Inr h' \<and> total_requests h' = length crs)"
  proof
    assume a: "crs \<noteq> [] \<and> (\<forall>cr \<in> set crs. cat_name (fst cr) \<noteq> None)"
    let ?h0 = "h\<lparr>total_requests := 0, successful_requests := 0, categories_with_items := 0\<rparr>"
    from a scrape_loop_visits_all[of crs ?h0]
    show "\<exists>h'. scrape_all_products h crs = Inr h' \<and> total_requests h' = length crs"
      by (simp add: scrape_all_products_def)
  qed
  ultimately show ?thesis by simp
qed



theorem scrape_isolates_transport_failures_witness:
  "map (\<lambda>cr. (transport_failure (snd cr), cat_name (fst cr))) example_run
     = [(False, Some ''A''), (True, Some ''B''), (False, Some ''C'')]
   \<and> store_of (scrape_all_products fresh example_run)
     = store_of (scrape_all_products fresh
         (filter (\<lambda>cr. \<not> transport_failure (snd cr)) example_run))
   \<and> map_sum id (\<lambda>h. (length (all_products h), total_requests h))
       (scrape_all_products fresh example_run)
     = Inr (8, 3)"
proof -
  have hyp: "\<forall>cr \<in> set example_run. transport_failure (snd cr) \<longrightarrow> cat_name (fst cr) \<noteq> None"
    using example_run_named by blast
  have flags: "map (\<lambda>cr. (transport_failure (snd cr), cat_name (fst cr))) example_run
     = [(False, Some ''A''), (True, Some ''B''), (False, Some ''C'')]"
    by (simp add: example_run_def transport_failure_def leaf_category_def cat_info_def)
  from scrape_isolates_transport_failures[OF hyp, of fresh]
  have "store_of (scrape_all_products fresh example_run)
     = store_of (scrape_all_products fresh
         (filter (\<lambda>cr. \<not> transport_failure (snd cr)) example_run))"
    by (rule conjunct1)
  moreover have "map_sum id (\<lambda>h. (length (all_products h), total_requests h))
       (scrape_all_products fresh example_run) = Inr (8, 3)"
    by (simp add: example_run_eval)
  ultimately show ?thesis using flags by simp
qed

text \<open>
  Claim C5, as the code has it. Starting without statistics, a harvest that completes
  has recorded exactly one statistic per slug of those categories whose fetch returned
  at least one item, and every recorded statistic has
  \<^verbatim>\<open>new_items <= item_count\<close>. A 404 response gives the empty item list and is
  not an error, but so do every other HTTP error, any other failure and an empty
  success: none of them records a statistic, and no outcome is stored.
\<close>

theorem category_stats_recorded:
  "scrape_all_products h crs = Inr h' \<Longrightarrow> category_stats h = [] \<Longrightarrow>
     distinct (map fst (category_stats h'))
   \<and> set (map fst (category_stats h')) = set (yielded_slugs crs)
   \<and> stats_bounded (category_stats h')
   \<and> get_category_items (HttpError 404) sl nm = []
   \<and> get_category_items (HttpError status) sl nm = get_category_items (HttpError 404) sl nm
   \<and> get_category_items RequestFailed sl nm = get_category_items (HttpError 404) sl nm
   \<and> get_category_items (Ok []) sl nm = get_category_items (HttpError 404) sl nm"
proof -
  assume run: "scrape_all_products h crs = Inr h'" and empty: "category_stats h = []"
  let ?h0 = "if crs = [] then h
             else h\<lparr>total_requests := 0, successful_requests := 0, categories_with_items := 0\<rparr>"
  have "scrape_loop ?h0 crs = Inr h'"
    using run by (auto simp: scrape_all_products_def)
  moreover have "category_stats ?h0 = []" using empty by simp
  ultimately have
    "set (map fst (category_stats h')) = set (yielded_slugs crs)"
    "distinct (map fst (category_stats h'))"
    "stats_bounded (category_stats h')"
    using scrape_loop_stats[of ?h0 crs h'] by (simp_all add: stats_bounded_def)
  then show ?thesis by (simp add: get_category_items_def)
qed

theorem category_stats_recorded_witness:
  "category_stats fresh = []
   \<and> map_sum id category_stats (scrape_all_products fresh example_run)
     = Inr [(Some ''A'', \<lparr>stat_name = ''A'', stat_path = Some ''A'', item_count = 5, new_items = 5\<rparr>),
            (Some ''C'', \<lparr>stat_name = ''C'', stat_path = Some ''C'', item_count = 3, new_items = 3\<rparr>)]
   \<and> yielded_slugs example_run = [Some ''A'', Some ''C'']
   \<and> stats_bounded
        [(Some ''A'', \<lparr>stat_name = ''A'', stat_path = Some ''A'', item_count = 5, new_items = 5\<rparr>),
         (Some ''C'', \<lparr>stat_name = ''C'', stat_path = Some ''C'', item_count = 3, new_items = 3\<rparr>)]"
proof -
  have e: "category_stats fresh = []" by (simp add: fresh_def)
  from category_stats_recorded[OF example_run_eval e]
  have "stats_bounded
        [(Some ''A'', \<lparr>stat_name = ''A'', stat_path = Some ''A'', item_count = 5, new_items = 5\<rparr>),
         (Some ''C'', \<lparr>stat_name = ''C'', stat_path = Some ''C'', item_count = 3, new_items = 3\<rparr>)]"
    by simp
  with e example_yield show ?thesis by (simp add: example_run_eval)
qed

text \<open>
  Claim C5 as stated fails: a category answered with 404 is queried (one request) and
  leaves no statistic, and the run is the same when the answer is a 500.
\<close>

theorem not_found_counterexample:
  "scrape_all_products fresh [(leaf_category ''A'', HttpError 404)]
     = Inr (fresh\<lparr>total_requests := 1\<rparr>)
   \<and> category_stats (fresh\<lparr>total_requests := 1\<rparr>) = []
   \<and> scrape_all_products fresh [(leaf_category ''A'', HttpError 500)]
     = scrape_all_products fresh [(leaf_category ''A'', HttpError 404)]"
  by (simp add: scrape_all_products_def scrape_category_def leaf_category_def cat_info_def
        get_category_items_def fresh_def)

section \<open>Properties of the completeness check\<close>







text \<open>
  The warning names at most five of the flagged categories, the first five in the order
  of the dictionary.
\<close>

lemma verify_completeness_shows_five:
  "verify_completeness h = Warning n shown \<Longrightarrow> length shown = min 5 n"
  by (auto simp: verify_completeness_def Let_def split: if_splits)

section \<open>Properties of the search sweep\<close>

lemma sweep_stops_at:
  "k < length qrs \<Longrightarrow> query_yields ps qrs ! k = 0 \<Longrightarrow>
   \<forall>j<k. query_yields ps qrs ! j \<noteq> 0 \<Longrightarrow>
   snd (sweep_loop ps qrs) = take (Suc k) (map fst qrs)"
proof (induction qrs arbitrary: ps k)
  case Nil
  then show ?case by simp
next
  case (Cons qr qrs)
  obtain q resp where qr: "qr = (q, resp)" by (cases qr)
  obtain ps' n where m: "merge_items ps 0 (search_items resp) = (ps', n)"
    by (cases "merge_items ps 0 (search_items resp)")
  show ?case
  proof (cases k)
    case 0
    with Cons.prems(2) have "n = 0" by (simp add: qr m)
    then show ?thesis using 0 by (simp add: qr m)
  next
    case (Suc k')
    from Cons.prems(3) have "query_yields ps (qr # qrs) ! 0 \<noteq> 0" using Suc by blast
    then have n: "n \<noteq> 0" by (simp add: qr m)
    have a: "k' < length qrs" using Cons.prems(1) Suc by simp
    have b: "query_yields ps' qrs ! k' = 0" using Cons.prems(2) Suc by (simp add: qr m)
    have c: "\<forall>j<k'. query_yields ps' qrs ! j \<noteq> 0"
    proof (intro allI impI)
      fix j assume "j < k'"
      then have "Suc j < k" using Suc by simp
      with Cons.prems(3) have "query_yields ps (qr # qrs) ! Suc j \<noteq> 0" by blast
      then show "query_yields ps' qrs ! j \<noteq> 0" by (simp add: qr m)
    qed
    from Cons.IH[OF a b c] show ?thesis
      using n Suc by (simp add: qr m split_beta)
  qed
qed

lemma sweep_runs_through:
  "\<forall>n \<in> set (query_yields ps qrs). n \<noteq> 0 \<Longrightarrow> snd (sweep_loop ps qrs) = map fst qrs"
proof (induction qrs arbitrary: ps)
  case Nil
  then show ?case by simp
next
  case (Cons qr qrs)
  obtain q resp where qr: "qr = (q, resp)" by (cases qr)
  obtain ps' n where m: "merge_items ps 0 (search_items resp) = (ps', n)"
    by (cases "merge_items ps 0 (search_items resp)")
  from Cons.prems have n: "n \<noteq> 0" and rest: "\<forall>n \<in> set (query_yields ps' qrs). n \<noteq> 0"
    by (simp_all add: qr m)
  from Cons.IH[OF rest] show ?case
    using n by (simp add: qr m split_beta)
qed


text \<open>
  Claim C3. For every list of queries: when the query at position \<open>k\<close> (counted from 0)
  is the first that yields no new item, the sweep issues exactly the first \<open>k + 1\<close>
  queries and none of the remaining ones; when every query yields a new item, it
  issues the whole list.
\<close>

theorem sweep_stops_at_first_empty_yield:
  "(k < length qrs \<and> query_yields ps qrs ! k = 0 \<and> (\<forall>j<k. query_yields ps qrs ! j \<noteq> 0)
      \<longrightarrow> snd (sweep_loop ps qrs) = take (Suc k) (map fst qrs))
   \<and> ((\<forall>n \<in> set (query_yields ps qrs). n \<noteq> 0)
      \<longrightarrow> snd (sweep_loop ps qrs) = map fst qrs)"
  using sweep_stops_at[of k qrs ps] sweep_runs_through[of ps qrs] by blast


theorem sweep_stops_at_first_empty_yield_witness:
  "query_yields [(''p1'', raw_item ''p1'')]
     [('' '', Ok [raw_item ''p1'', raw_item ''p2'']),
      (''*'', Ok [raw_item ''p2'', raw_item ''p1'']),
      (''a'', Ok [raw_item ''p9''])]
   = [1, 0, 1]
   \<and> snd (sweep_loop [(''p1'', raw_item ''p1'')]
     [('' '', Ok [raw_item ''p1'', raw_item ''p2'']),
      (''*'', Ok [raw_item ''p2'', raw_item ''p1'']),
      (''a'', Ok [raw_item ''p9''])])
   = ['' '', ''*'']
   \<and> query_yields [(''p1'', raw_item ''p1'')]
     [('' '', Ok [raw_item ''p2'']), (''*'', Ok [raw_item ''p3''])]
   = [1, 1]
   \<and> snd (sweep_loop [(''p1'', raw_item ''p1'')]
     [('' '', Ok [raw_item ''p2'']), (''*'', Ok [raw_item ''p3''])])
   = ['' '', ''*'']"
  using sweep_stops_at_first_empty_yield
    [of 1 "[('' '', Ok [raw_item ''p1'', raw_item ''p2'']),
      (''*'', Ok [raw_item ''p2'', raw_item ''p1'']),
      (''a'', Ok [raw_item ''p9''])]" "[(''p1'', raw_item ''p1'')]"]
    sweep_stops_at_first_empty_yield
    [of 0 "[('' '', Ok [raw_item ''p2'']), (''*'', Ok [raw_item ''p3''])]"
        "[(''p1'', raw_item ''p1'')]"]
  by (simp add: search_items_def dict_contains_def item_id_raw)

text \<open>
  \<^verbatim>\<open>supplement_with_search\<close> is this loop over the fixed list of ten queries.
\<close>

lemma supplement_with_search_issued:
  "snd (supplement_with_search h transport)
   = snd (sweep_loop (all_products h) (map (\<lambda>q. (q, transport q)) search_queries))"
  by (simp add: supplement_with_search_def split_beta)

section \<open>Termination of the batch loop\<close>

lemma search_batches_short_response:
  assumes "search_batches transport n st = Some r"
  shows "\<exists>k. length (search_items (transport (n + k + 1))) < 500"
proof (rule search_batches.raw_induct
    [where P = "\<lambda>transport n st r. \<exists>k. length (search_items (transport (n + k + 1))) < 500",
     OF _ assms])
  fix f :: "(nat \<Rightarrow> response) \<Rightarrow> nat \<Rightarrow> item list \<times> string set
            \<Rightarrow> (item list \<times> string set) option"
  fix transport n st r
  assume IH: "\<And>transport n st r. f transport n st = Some r \<Longrightarrow>
                \<exists>k. length (search_items (transport (n + k + 1))) < 500"
  assume body: "(let items = search_items (transport (n + 1))
      in if items = [] then Some st
         else if length items < 500 then Some (add_batch items st)
         else f transport (n + 1) (add_batch items st)) = Some r"
  let ?items = "search_items (transport (n + 1))"
  show "\<exists>k. length (search_items (transport (n + k + 1))) < 500"
  proof (cases "length ?items < 500")
    case True
    then have "length (search_items (transport (n + 0 + 1))) < 500" by simp
    then show ?thesis by blast
  next
    case False
    then have "?items \<noteq> []" by auto
    with False body have "f transport (n + 1) (add_batch ?items st) = Some r"
      by (simp add: Let_def)
    from IH[OF this] obtain k where "length (search_items (transport (n + 1 + k + 1))) < 500"
      by blast
    then have "length (search_items (transport (n + Suc k + 1))) < 500" by simp
    then show ?thesis by blast
  qed
qed

lemma search_batches_terminates:
  "length (search_items (transport (n + k + 1))) < 500 \<Longrightarrow>
   \<exists>r. search_batches transport n st = Some r"
proof (induction k arbitrary: n st)
  case 0
  then show ?case
    by (subst search_batches.simps) (simp add: Let_def)
next
  case (Suc k)
  let ?items = "search_items (transport (n + 1))"
  from Suc.prems have "length (search_items (transport (n + 1 + k + 1))) < 500" by simp
  from Suc.IH[OF this, of "add_batch ?items st"]
  obtain r where "search_batches transport (n + 1) (add_batch ?items st) = Some r" by blast
  then show ?case
    by (subst search_batches.simps) (simp add: Let_def)
qed

lemma search_batches_diverges:
  assumes "\<forall>k. 500 \<le> length (search_items (transport k))"
  shows "search_batches transport n st = None"
proof (cases "search_batches transport n st")
  case None
  then show ?thesis .
next
  case (Some r)
  from search_batches_short_response[OF this] assms show ?thesis
    by (auto simp: not_less[symmetric])
qed


lemma filter_duplicates_known:
  "\<forall>it \<in> set its. \<forall>k. item_id it = Some k \<longrightarrow> k = [] \<or> k \<in> product_ids \<Longrightarrow>
   filter_duplicates its product_ids batch = (batch, product_ids)"
  by (induction its) (auto split: option.splits)

lemma filter_duplicates_repeated:
  "filter_duplicates (replicate 500 (raw_item ''p'')) {''p''} [] = ([], {''p''})"
  by (rule filter_duplicates_known) (simp add: raw_item_def)


text \<open>
  Claim C10. The batch loop returns exactly when some response from the current batch
  on has fewer than 500 items (an empty one included); the condition does not mention
  the number of new items. In particular, against a transport that always answers with
  500 or more items the loop never returns, even when every item is a duplicate.
\<close>

theorem search_batches_termination:
  "((\<exists>r. search_batches transport n st = Some r)
      \<longleftrightarrow> (\<exists>k. length (search_items (transport (n + k + 1))) < 500))
   \<and> ((\<forall>k. 500 \<le> length (search_items (transport k)))
      \<longrightarrow> search_batches transport n st = None)"
  using search_batches_short_response[of transport n st]
    search_batches_terminates[of transport n _ st]
    search_batches_diverges[of transport n st]
  by blast


theorem search_batches_termination_witness:
  "search_batches (\<lambda>n. Ok (replicate 500 (raw_item ''p''))) 0 ([], {}) = None
   \<and> filter_duplicates (replicate 500 (raw_item ''p'')) {''p''} [] = ([], {''p''})
   \<and> search_batches (\<lambda>n. Ok [raw_item ''p'', raw_item ''p'']) 0 ([], {})
     = Some ([raw_item ''p''], {''p''})"
proof -
  have "\<forall>k. 500 \<le> length (search_items ((\<lambda>n. Ok (replicate 500 (raw_item ''p''))) k))"
    by (simp add: search_items_def)
  with search_batches_termination
    [of "\<lambda>n. Ok (replicate 500 (raw_item ''p''))" 0 "([], {})"]
  have "search_batches (\<lambda>n. Ok (replicate 500 (raw_item ''p''))) 0 ([], {}) = None"
    by blast
  moreover have "search_batches (\<lambda>n. Ok [raw_item ''p'', raw_item ''p'']) 0 ([], {})
     = Some ([raw_item ''p''], {''p''})"
    by (subst search_batches.simps)
       (simp add: Let_def search_items_def add_batch_def item_id_raw)
  ultimately show ?thesis using filter_duplicates_repeated by simp
qed

section \<open>Properties of the normalisation\<close>







lemma normalize_absent_price:
  "item_price it = None \<Longrightarrow> norm_price (normalize it) = 0"
  by (simp add: normalize_def Let_def)

lemma normalize_absent_is_zero:
  "item_price it = None \<Longrightarrow> normalize it = normalize (it\<lparr>item_price := Some 0\<rparr>)"
  by (simp add: normalize_def Let_def)


lemma price_of: "norm_price (normalize ((raw_item k)\<lparr>item_price := Some c\<rparr>))
   = (if c \<noteq> 0 then of_int c / 100 else 0)"
  by (simp add: normalize_def Let_def raw_item_def)

lemma example_prices:
  "pricing_analysis (normalize_products
       [(raw_item ''p1'')\<lparr>item_price := Some 450\<rparr>, (raw_item ''p3'')\<lparr>item_price := Some 150\<rparr>])
     = Some \<lparr>avg_price = 3, min_price = 3 / 2, max_price = 9 / 2, median_price = 9 / 2\<rparr>"
  by (simp add: pricing_analysis_def normalize_products_def price_of)


text \<open>
  Claim C9, as the code has it. A product without a price is normalised to price 0, the
  same as a product with an explicit price of 0, and the pricing aggregates are the same
  with and without it: it contributes no zero to average, minimum, maximum or median.
\<close>

theorem absent_price_excluded_from_aggregates:
  "item_price it = None \<Longrightarrow>
     norm_price (normalize it) = 0
   \<and> normalize it = normalize (it\<lparr>item_price := Some 0\<rparr>)
   \<and> pricing_analysis (normalize_products (before @ it # after))
     = pricing_analysis (normalize_products (before @ after))"
  by (simp add: normalize_absent_price normalize_absent_is_zero[symmetric]
        pricing_analysis_def normalize_products_def)


theorem absent_price_excluded_from_aggregates_witness:
  "item_price (raw_item ''p2'') = None
   \<and> pricing_analysis (normalize_products
       [(raw_item ''p1'')\<lparr>item_price := Some 450\<rparr>, raw_item ''p2'',
        (raw_item ''p3'')\<lparr>item_price := Some 150\<rparr>])
     = Some \<lparr>avg_price = 3, min_price = 3 / 2, max_price = 9 / 2, median_price = 9 / 2\<rparr>"
proof -
  have a: "item_price (raw_item ''p2'') = None" by (simp add: raw_item_def)
  from absent_price_excluded_from_aggregates
    [OF a, of "[(raw_item ''p1'')\<lparr>item_price := Some 450\<rparr>]"
              "[(raw_item ''p3'')\<lparr>item_price := Some 150\<rparr>]"]
  have "pricing_analysis (normalize_products
       [(raw_item ''p1'')\<lparr>item_price := Some 450\<rparr>, raw_item ''p2'',
        (raw_item ''p3'')\<lparr>item_price := Some 150\<rparr>])
     = pricing_analysis (normalize_products
       [(raw_item ''p1'')\<lparr>item_price := Some 450\<rparr>, (raw_item ''p3'')\<lparr>item_price := Some 150\<rparr>])"
    by simp
  with a example_prices show ?thesis by simp
qed

text \<open>
  Claim C9 as stated fails: the absent price is not kept as a value of its own, it
  becomes the number 0.
\<close>

theorem absent_price_counterexample:
  "normalize (raw_item ''p'') = normalize ((raw_item ''p'')\<lparr>item_price := Some 0\<rparr>)
   \<and> norm_price (normalize (raw_item ''p'')) = 0"
  by (simp add: normalize_def Let_def raw_item_def)

end
